theory Spec2Isabelle
  imports Main "HOL-Library.Sublist"
begin

section \<open>Python values\<close>

text \<open>
  A Python \<open>str\<close> is a sequence of Unicode code points, so it is modelled as a list of
  natural numbers, one per code point. \<open>lit\<close> turns an ASCII literal into such a list.
  The substring test \<open>a in b\<close> on strings is \<^const>\<open>sublist\<close> (a contiguous sublist).
\<close>

type_synonym pystr = "nat list"

definition lit :: "string \<Rightarrow> pystr" where
  "lit s = map of_char s"

text \<open>The exceptions that can leave the code under study. \<open>IndexError\<close> is the
  \<open>[...][0]\<close> of an empty list; \<open>ValidationError\<close> is what the message store raises for
  a content that is \<open>None\<close>; \<open>ExternalError\<close> is any exception raised by a collaborator
  (the language model, a store behind a tool, the JSON decoder).\<close>

datatype py_error = IndexError | ValidationError | ExternalError pystr

text \<open>\<open>str.isspace\<close> of one code point, as CPython decides it.\<close>

definition py_isspace :: "nat \<Rightarrow> bool" where
  "py_isspace c \<longleftrightarrow>
     (9 \<le> c \<and> c \<le> 13) \<or> (28 \<le> c \<and> c \<le> 32) \<or> c = 133 \<or> c = 160 \<or> c = 5760 \<or>
     (8192 \<le> c \<and> c \<le> 8202) \<or> c = 8232 \<or> c = 8233 \<or> c = 8239 \<or> c = 8287 \<or> c = 12288"

text \<open>\<open>s.strip()\<close>: leading and trailing whitespace removed.\<close>

definition py_strip :: "pystr \<Rightarrow> pystr" where
  "py_strip s = rev (dropWhile py_isspace (rev (dropWhile py_isspace s)))"

text \<open>\<open>s.split(sep)\<close> for a separator of one code point: one part more than there are
  separators, empty parts kept. The scan keeps the part read so far in \<open>cur\<close>.\<close>

fun split_acc :: "nat \<Rightarrow> pystr \<Rightarrow> pystr \<Rightarrow> pystr list" where
  "split_acc c cur [] = [cur]"
| "split_acc c cur (x # xs) =
     (if x = c then cur # split_acc c [] xs else split_acc c (cur @ [x]) xs)"

definition py_split :: "nat \<Rightarrow> pystr \<Rightarrow> pystr list" where
  "py_split c s = split_acc c [] s"

text \<open>\<open>s.replace(old, "")\<close>: the occurrences of \<open>old\<close> are removed from left to right,
  without overlap. With an empty \<open>old\<close> the string is returned as it is.\<close>

function py_remove :: "pystr \<Rightarrow> pystr \<Rightarrow> pystr" where
  "py_remove old s =
     (if old = [] \<or> s = [] then s
      else if prefix old s then py_remove old (drop (length old) s)
      else hd s # py_remove old (tl s))"
  by pat_completeness auto
termination
  by (relation "measure (\<lambda>(old, s). length s)") auto

declare py_remove.simps [simp del]

section \<open>The Planner's parsing of the response\<close>

record plan_step =
  tool :: pystr
  query :: pystr

definition TOOL_MARK :: pystr where
  "TOOL_MARK = lit ''Tool:''"

definition QUERY_MARK :: pystr where
  "QUERY_MARK = lit ''Query:''"

definition NEWLINE :: nat where
  "NEWLINE = 10"

definition PIPE :: nat where
  "PIPE = 124"

text \<open>\<open>[p for p in parts if marker in p][0]\<close>: the first part that holds the marker,
  \<open>IndexError\<close> when there is none.\<close>

definition first_part_with :: "pystr \<Rightarrow> pystr list \<Rightarrow> py_error + pystr" where
  "first_part_with marker parts =
     (case filter (sublist marker) parts of
        [] \<Rightarrow> Inl IndexError
      | p # _ \<Rightarrow> Inr p)"

text \<open>The body of the \<open>if\<close> in the Planner's loop, for one line.\<close>

definition parse_line :: "pystr \<Rightarrow> py_error + plan_step" where
  "parse_line line =
     (let parts = py_split PIPE line in
      case first_part_with TOOL_MARK parts of
        Inl e \<Rightarrow> Inl e
      | Inr tool_part \<Rightarrow>
          (case first_part_with QUERY_MARK parts of
             Inl e \<Rightarrow> Inl e
           | Inr query_part \<Rightarrow>
               Inr \<lparr>tool = py_strip (py_remove TOOL_MARK tool_part),
                    query = py_strip (py_remove QUERY_MARK query_part)\<rparr>))"

text \<open>The loop \<open>for line in response.split("\n")\<close>, with the plan built so far.\<close>

fun parse_lines :: "pystr list \<Rightarrow> plan_step list \<Rightarrow> py_error + plan_step list" where
  "parse_lines [] plan = Inr plan"
| "parse_lines (line # rest) plan =
     (if sublist TOOL_MARK line \<and> sublist QUERY_MARK line then
        (case parse_line line of
           Inl e \<Rightarrow> Inl e
         | Inr st \<Rightarrow> parse_lines rest (plan @ [st]))
      else parse_lines rest plan)"

definition parse_plan :: "pystr \<Rightarrow> py_error + plan_step list" where
  "parse_plan response = parse_lines (py_split NEWLINE response) []"

text \<open>What one line of the response adds to the plan, said directly: a line that holds both
  markers adds one step, read from the first pipe-separated part holding each marker; any
  other line adds nothing. The Planner's loop is compared with this description below.\<close>

definition line_steps :: "pystr \<Rightarrow> plan_step list" where
  "line_steps line =
     (if sublist TOOL_MARK line \<and> sublist QUERY_MARK line then
        [\<lparr>tool = py_strip (py_remove TOOL_MARK
                   (hd (filter (sublist TOOL_MARK) (py_split PIPE line)))),
          query = py_strip (py_remove QUERY_MARK
                   (hd (filter (sublist QUERY_MARK) (py_split PIPE line))))\<rparr>]
      else [])"

section \<open>Conversation memory, tools and the turn state\<close>

datatype message = HumanMessage pystr | AIMessage pystr

text \<open>What a tool hands back: a \<open>str\<close>, or the empty list that \<open>recommend_alternatives\<close>
  returns when no medicine matches. \<open>truthy\<close> is Python's truth value of it.\<close>

datatype tool_output = Text pystr | EmptyList

fun truthy :: "tool_output \<Rightarrow> bool" where
  "truthy (Text s) = (s \<noteq> [])"
| "truthy EmptyList = False"

record tool_result = plan_step +
  result :: tool_output

text \<open>The argument of \<open>tool.run\<close>: the query as it is, or \<open>{"indications": json.loads(query)}\<close>
  with the decoded value, of a type \<open>'j\<close> left open.\<close>

datatype 'j tool_input = Query pystr | Indications 'j

text \<open>The calls made to collaborators during a turn, in order. This log is not a key of
  the Python state; it is kept beside it to count calls.\<close>

datatype event =
    PlannerCall
  | ToolCall pystr pystr
  | SummarizerCall "tool_result list"

text \<open>The state built by \<open>run\<close> holds two keys; the Planner adds \<open>plan\<close>, \<open>results\<close> and
  \<open>current_index\<close> before any node reads them. The keys read with \<open>.get\<close> are options:
  \<open>None\<close> is an absent key. \<open>final_answer\<close> can also be present with the value \<open>None\<close>,
  which is \<open>Some None\<close>.\<close>

record turn_input =
  question :: pystr
  chat_history :: "message list"

record turn_state = turn_input +
  plan :: "plan_step list"
  results :: "tool_result list"
  current_index :: nat
  done_flag :: "bool option"
  force_end :: "bool option"
  final_answer :: "pystr option option"
  calls :: "event list"

text \<open>The collaborators. Building a prompt, formatting it and \<open>llm.invoke\<close> are one call of
  the language capability, which returns a text or raises; a tool call and the summarizing
  call may answer differently depending on the calls made before (first argument).\<close>

record 'j env =
  llm_plan :: "pystr \<Rightarrow> message list \<Rightarrow> py_error + pystr"
  llm_summarize :: "event list \<Rightarrow> pystr \<Rightarrow> message list \<Rightarrow> tool_result list \<Rightarrow> py_error + pystr"
  json_loads :: "pystr \<Rightarrow> py_error + 'j"
  tool_run :: "event list \<Rightarrow> pystr \<Rightarrow> 'j tool_input \<Rightarrow> py_error + tool_output"

definition RECOMMEND_BY_INDICATIONS :: pystr where
  "RECOMMEND_BY_INDICATIONS = lit ''recommend_by_indications''"

definition tools_keys :: "pystr list" where
  "tools_keys = [lit ''search_by_name'', lit ''search_by_query'',
                 lit ''recommend_alternatives'', RECOMMEND_BY_INDICATIONS]"

text \<open>\<open>self.tools.get(tool_name)\<close>\<close>

definition tools_get ::
  "'j env \<Rightarrow> pystr \<Rightarrow> (event list \<Rightarrow> 'j tool_input \<Rightarrow> py_error + tool_output) option" where
  "tools_get env tool_name =
     (if tool_name \<in> set tools_keys then Some (\<lambda>cs. tool_run env cs tool_name) else None)"

text \<open>\<open>f"Tool '{tool_name}' kh\<dots>ng t\<dots>n t\<dots>i."\<close> (the tool does not exist), by code points.\<close>

definition tool_not_found :: "pystr \<Rightarrow> pystr" where
  "tool_not_found tool_name =
     lit ''Tool '' @ [39] @ tool_name @
     [39, 32, 107, 104, 244, 110, 103, 32, 116, 7891, 110, 32, 116, 7841, 105, 46]"

text \<open>The fixed answer of the forced stop (no useful data found after 3 attempts) and the
  default answer of \<open>run\<close> (no result), by code points.\<close>

definition FALLBACK_ANSWER :: pystr where
  "FALLBACK_ANSWER =
     [75, 104, 244, 110, 103, 32, 116, 236, 109, 32, 273, 432, 7907, 99, 32, 100, 7919, 32,
      108, 105, 7879, 117, 32, 104, 7919, 117, 32, 237, 99, 104, 32, 115, 97, 117, 32, 51, 32,
      108, 7847, 110, 32, 116, 104, 7917, 46]"

definition DEFAULT_ANSWER :: pystr where
  "DEFAULT_ANSWER =
     [75, 104, 244, 110, 103, 32, 99, 243, 32, 107, 7871, 116, 32, 113, 117, 7843, 46]"

section \<open>The nodes of the graph\<close>

definition planner_node :: "'j env \<Rightarrow> turn_input \<Rightarrow> py_error + turn_state" where
  "planner_node env state =
     (case llm_plan env (question state) (chat_history state) of
        Inl e \<Rightarrow> Inl e
      | Inr response \<Rightarrow>
          (case parse_plan response of
             Inl e \<Rightarrow> Inl e
           | Inr p \<Rightarrow>
               Inr \<lparr>question = question state, chat_history = chat_history state,
                    plan = p, results = [], current_index = 0,
                    done_flag = None, force_end = None, final_answer = None,
                    calls = [PlannerCall]\<rparr>))"

text \<open>Lines 134 to 138 of the Executor: the lookup in the registry and the call. The
  result comes with the log of calls, longer by one when a tool was run.\<close>

definition run_tool ::
  "'j env \<Rightarrow> event list \<Rightarrow> pystr \<Rightarrow> pystr \<Rightarrow> py_error + tool_output \<times> event list" where
  "run_tool env cs tool_name q =
     (case tools_get env tool_name of
        None \<Rightarrow> Inr (Text (tool_not_found tool_name), cs)
      | Some t \<Rightarrow>
          (case (if tool_name = RECOMMEND_BY_INDICATIONS then
                   (case json_loads env q of
                      Inl e \<Rightarrow> Inl e
                    | Inr j \<Rightarrow> t cs (Indications j))
                 else t cs (Query q)) of
             Inl e \<Rightarrow> Inl e
           | Inr r \<Rightarrow> Inr (r, cs @ [ToolCall tool_name q])))"

definition executor_node :: "'j env \<Rightarrow> turn_state \<Rightarrow> py_error + turn_state" where
  "executor_node env state =
     (let index = current_index state in
      if index \<ge> length (plan state) then Inr (state\<lparr>done_flag := Some True\<rparr>)
      else
        let step = plan state ! index; tool_name = tool step; q = query step in
        case run_tool env (calls state) tool_name q of
          Inl e \<Rightarrow> Inl e
        | Inr (r, cs) \<Rightarrow>
            let results' = results state @ [\<lparr>tool = tool_name, query = q, result = r\<rparr>];
                max_attempts = 3;
                forced = (index + 1 \<ge> max_attempts \<and>
                          filter (\<lambda>x. truthy (result x)) results' = [])
            in Inr (state\<lparr>results := results',
                          current_index := index + 1,
                          force_end := Some forced,
                          final_answer := Some (if forced then Some FALLBACK_ANSWER else None),
                          calls := cs\<rparr>))"

definition should_continue :: "turn_state \<Rightarrow> bool" where
  "should_continue state =
     (if (case force_end state of None \<Rightarrow> False | Some b \<Rightarrow> b) then False
      else current_index state < length (plan state))"

definition summarizer_node :: "'j env \<Rightarrow> turn_state \<Rightarrow> py_error + turn_state" where
  "summarizer_node env state =
     (case llm_summarize env (calls state) (question state) (chat_history state)
             (results state) of
        Inl e \<Rightarrow> Inl e
      | Inr a \<Rightarrow>
          Inr (state\<lparr>final_answer := Some (Some a),
                     calls := calls state @ [SummarizerCall (results state)]\<rparr>))"

section \<open>The graph and a turn\<close>

text \<open>The edges of \<open>_build_graph\<close>: Planner, then Executor; after the Executor, the Executor
  again when \<open>_should_continue\<close> is true and the Summarizer otherwise; then the end.

  The graph library stops a run that takes too many steps (its \<open>recursion_limit\<close>, 25 by
  default, which the code does not change) and raises. That limit is not part of the model:
  a turn that the library would cut short is carried to its end here. What is proved of
  \<open>executor_loop\<close>, \<open>graph_invoke\<close> and \<open>run\<close> therefore describes the turns that stay within the
  limit, which are those with a plan of about twenty steps or fewer; what is proved of one
  Executor step holds of every step the code takes.\<close>

function executor_loop :: "'j env \<Rightarrow> turn_state \<Rightarrow> py_error + turn_state" where
  "executor_loop env state =
     (case executor_node env state of
        Inl e \<Rightarrow> Inl e
      | Inr state' \<Rightarrow>
          if should_continue state' then executor_loop env state'
          else summarizer_node env state')"
  by pat_completeness auto
termination
  by (relation "measure (\<lambda>(env, s). length (plan s) - current_index s)")
     (auto simp: executor_node_def should_continue_def Let_def
           split: if_splits sum.splits prod.splits option.splits)

declare executor_loop.simps [simp del]

definition graph_invoke :: "'j env \<Rightarrow> turn_input \<Rightarrow> py_error + turn_state" where
  "graph_invoke env state =
     (case planner_node env state of
        Inl e \<Rightarrow> Inl e
      | Inr s \<Rightarrow> executor_loop env s)"

text \<open>The last three lines of \<open>run\<close>: the answer is read from the final state, appended to
  the memory and returned. Appending a content that is \<open>None\<close> raises.\<close>

definition store_answer ::
  "message list \<Rightarrow> turn_state \<Rightarrow> (py_error + pystr) \<times> message list" where
  "store_answer memory result_state =
     (case (case final_answer result_state of None \<Rightarrow> Some DEFAULT_ANSWER | Some v \<Rightarrow> v) of
        None \<Rightarrow> (Inl ValidationError, memory)
      | Some answer \<Rightarrow> (Inr answer, memory @ [AIMessage answer]))"

text \<open>\<open>run\<close> returns the answer or the exception, and the memory as it is left.\<close>

definition run ::
  "'j env \<Rightarrow> message list \<Rightarrow> pystr \<Rightarrow> (py_error + pystr) \<times> message list" where
  "run env memory user_question =
     (let memory1 = memory @ [HumanMessage user_question];
          state = \<lparr>question = user_question, chat_history = memory1\<rparr>
      in case graph_invoke env state of
           Inl e \<Rightarrow> (Inl e, memory1)
         | Inr result_state \<Rightarrow> store_answer memory1 result_state)"

section \<open>The tool \<open>recommend_alternatives\<close>\<close>

text \<open>A node of the graph store as the tool reads it: \<open>m["id"]\<close>, \<open>m["name"]\<close> and
  \<open>m.get("metadata", "{}")\<close>, where the last key can be absent.\<close>

record node =
  node_id :: pystr
  name :: pystr
  metadata :: "pystr option"

datatype direction = Out | In

text \<open>The two reads of the store that the tool uses, each giving the list of nodes that the
  store returns. The relation is passed by its label. A read that raises makes the whole
  tool raise, which is the case \<open>Inl\<close> of \<open>tool_run\<close> in the model of the Executor.\<close>

record searcher =
  find_medicine_regex :: "pystr \<Rightarrow> node list"
  find_relations :: "pystr \<Rightarrow> pystr \<Rightarrow> direction \<Rightarrow> node list"

definition LOAI_THUOC :: pystr where
  "LOAI_THUOC = [76, 79, 7840, 73, 32, 84, 72, 85, 7888, 67]"

definition CHI_DINH :: pystr where
  "CHI_DINH = [67, 72, 7880, 32, 272, 7882, 78, 72]"

definition THANH_PHAN :: pystr where
  "THANH_PHAN = [84, 72, 192, 78, 72, 32, 80, 72, 7846, 78]"

text \<open>The loop \<open>for t in types: alts += find_relations(t["id"], rel, direction="in")\<close>.\<close>

fun gather :: "searcher \<Rightarrow> pystr \<Rightarrow> node list \<Rightarrow> node list \<Rightarrow> node list" where
  "gather s rel [] alts = alts"
| "gather s rel (t # ts) alts = gather s rel ts (alts @ find_relations s (node_id t) rel In)"

definition alternatives :: "searcher \<Rightarrow> pystr \<Rightarrow> pystr \<Rightarrow> node list" where
  "alternatives s medicine_id rel = gather s rel (find_relations s medicine_id rel Out) []"

text \<open>\<open>scores\<close> is a \<open>defaultdict\<close> from a name to \<open>[count, metadata]\<close>; a dictionary keeps
  its keys in the order of their first insertion, so it is an association list.
  \<open>bump\<close> is \<open>scores[n][0] += 1; scores[n][1] = md\<close>.\<close>

type_synonym scores = "(pystr \<times> nat \<times> pystr) list"

fun bump :: "scores \<Rightarrow> pystr \<Rightarrow> pystr \<Rightarrow> scores" where
  "bump [] n md = [(n, 1, md)]"
| "bump ((k, c, d) # rest) n md =
     (if k = n then (k, c + 1, md) # rest else (k, c, d) # bump rest n md)"

text \<open>One scoring loop: \<open>for m in alts: if m["id"] != medicine_id: ...\<close>\<close>

fun tally :: "pystr \<Rightarrow> node list \<Rightarrow> scores \<Rightarrow> scores" where
  "tally medicine_id [] sc = sc"
| "tally medicine_id (m # ms) sc =
     tally medicine_id ms
       (if node_id m \<noteq> medicine_id then
          bump sc (name m) (case metadata m of None \<Rightarrow> lit ''{}'' | Some d \<Rightarrow> d)
        else sc)"

record recommendation =
  rec_name :: pystr
  score :: nat
  rec_metadata :: pystr

text \<open>\<open>recs\<close> after \<open>recs.sort(key=lambda x: -x["score"])\<close>, a stable sort.\<close>

definition ranked_alternatives :: "searcher \<Rightarrow> node \<Rightarrow> recommendation list" where
  "ranked_alternatives s medicine =
     (let medicine_id = node_id medicine;
          alts_type = alternatives s medicine_id LOAI_THUOC;
          alts_ind = alternatives s medicine_id CHI_DINH;
          alts_ingre = alternatives s medicine_id THANH_PHAN;
          scores = tally medicine_id alts_ingre
                     (tally medicine_id alts_ind (tally medicine_id alts_type []));
          recs = map (\<lambda>(n, c, d). \<lparr>rec_name = n, score = c, rec_metadata = d\<rparr>) scores
      in sort_key (\<lambda>x. - int (score x)) recs)"

text \<open>\<open>top_k\<close> is a natural number: the Executor calls the tool with the query alone, so
  it is always the default, 5.

  The loop that writes the lines of the answer. \<open>short_description\<close> stands for
  \<open>json.loads(metadata).get('short_description', '')\<close>, which can raise. The labels are
  the name and the short description, by code points.\<close>

fun format_recs ::
  "(pystr \<Rightarrow> py_error + pystr) \<Rightarrow> recommendation list \<Rightarrow> pystr \<Rightarrow> py_error + tool_output" where
  "format_recs short_description [] result_match = Inr (Text result_match)"
| "format_recs short_description (r # rs) result_match =
     (case short_description (rec_metadata r) of
        Inl e \<Rightarrow> Inl e
      | Inr d \<Rightarrow>
          format_recs short_description rs
            (result_match @ [84, 234, 110, 58, 32] @ rec_name r @ [32]
               @ [77, 105, 234, 117, 32, 116, 7843, 32, 110, 103, 7855, 110, 58, 32] @ d
               @ [10]))"

definition recommend_alternatives ::
  "(pystr \<Rightarrow> py_error + pystr) \<Rightarrow> searcher \<Rightarrow> pystr \<Rightarrow> nat \<Rightarrow> py_error + tool_output" where
  "recommend_alternatives short_description s keyword top_k =
     (case find_medicine_regex s keyword of
        [] \<Rightarrow> Inr EmptyList
      | medicine # _ \<Rightarrow>
          format_recs short_description (take top_k (ranked_alternatives s medicine)) [])"

text \<open>The neighbours of a medicine for one relation, said directly: every node that has the
  relation to a node the medicine has it to, in the order the store returns them. The
  tool's loops are compared with this description below.\<close>

definition neighbours :: "searcher \<Rightarrow> node \<Rightarrow> pystr \<Rightarrow> node list" where
  "neighbours s medicine rel =
     concat (map (\<lambda>t. find_relations s (node_id t) rel In)
                 (find_relations s (node_id medicine) rel Out))"

text \<open>All the neighbours, for the three relations in the order in which the tool scores
  them, and the number of times a name occurs among them on a node other than the medicine.\<close>

definition all_alternatives :: "searcher \<Rightarrow> node \<Rightarrow> node list" where
  "all_alternatives s medicine =
     concat (map (neighbours s medicine) [LOAI_THUOC, CHI_DINH, THANH_PHAN])"

definition occurrences :: "node \<Rightarrow> pystr \<Rightarrow> node list \<Rightarrow> nat" where
  "occurrences medicine n ms =
     length (filter (\<lambda>m. name m = n \<and> node_id m \<noteq> node_id medicine) ms)"


text \<open>Two notations for the proofs: the count stored under a name in \<open>scores\<close> (0 when the
  name is not a key), and the dictionary built from one item of \<open>scores\<close>.\<close>

definition cnt :: "scores \<Rightarrow> pystr \<Rightarrow> nat" where
  "cnt sc n = (case map_of sc n of None \<Rightarrow> 0 | Some (c, d) \<Rightarrow> c)"

definition mk_rec :: "pystr \<times> nat \<times> pystr \<Rightarrow> recommendation" where
  "mk_rec = (\<lambda>(n, c, d). \<lparr>rec_name = n, score = c, rec_metadata = d\<rparr>)"

text \<open>A small graph for the examples. The medicine \<open>T\<close> has one type, four indications and
  one ingredient. \<open>A\<close> has the type and the ingredient of \<open>T\<close>; \<open>B\<close> has its four indications.\<close>

definition demo_node :: "string \<Rightarrow> string \<Rightarrow> node" where
  "demo_node i n = \<lparr>node_id = lit i, name = lit n, metadata = Some (lit ''{}'')\<rparr>"

definition demo_searcher :: searcher where
  "demo_searcher =
     \<lparr>find_medicine_regex = (\<lambda>keyword. [demo_node ''t'' ''T'']),
      find_relations = (\<lambda>start rel direction.
        if direction = Out then
          (if start \<noteq> lit ''t'' then []
           else if rel = LOAI_THUOC then [demo_node ''ty'' ''type'']
           else if rel = CHI_DINH then
             [demo_node ''i1'' ''ind1'', demo_node ''i2'' ''ind2'',
              demo_node ''i3'' ''ind3'', demo_node ''i4'' ''ind4'']
           else if rel = THANH_PHAN then [demo_node ''g'' ''ingredient'']
           else [])
        else
          (if rel = LOAI_THUOC \<and> start = lit ''ty'' then
             [demo_node ''t'' ''T'', demo_node ''a'' ''A'']
           else if rel = CHI_DINH \<and> start \<in> set [lit ''i1'', lit ''i2'', lit ''i3'', lit ''i4''] then
             [demo_node ''t'' ''T'', demo_node ''b'' ''B'']
           else if rel = THANH_PHAN \<and> start = lit ''g'' then
             [demo_node ''t'' ''T'', demo_node ''a'' ''A'']
           else []))\<rparr>"

section \<open>The states on which the Executor runs\<close>

text \<open>\<open>executor_runs env inp s\<close>: in the turn started from \<open>inp\<close>, the graph runs the Executor
  on the state \<open>s\<close>. The first such state is the one the Planner returns; the next one is
  what the Executor returned, when \<open>_should_continue\<close> is true of it.\<close>

inductive executor_runs :: "'j env \<Rightarrow> turn_input \<Rightarrow> turn_state \<Rightarrow> bool"
  for env :: "'j env" and inp :: turn_input where
  first: "planner_node env inp = Inr s \<Longrightarrow> executor_runs env inp s"
| again: "executor_runs env inp s \<Longrightarrow> executor_node env s = Inr s' \<Longrightarrow> should_continue s'
            \<Longrightarrow> executor_runs env inp s'"

section \<open>Concrete collaborators for the examples\<close>

text \<open>A language capability that plans with a fixed response and summarizes with a fixed
  text, a JSON decoder that rejects everything, and tools that all give the same answer.\<close>

definition demo_env :: "pystr \<Rightarrow> py_error + tool_output \<Rightarrow> unit env" where
  "demo_env response answer =
     \<lparr>llm_plan = (\<lambda>q h. Inr response),
      llm_summarize = (\<lambda>cs q h rs. Inr (lit ''summary'')),
      json_loads = (\<lambda>q. Inl (ExternalError (lit ''not JSON''))),
      tool_run = (\<lambda>cs n i. answer)\<rparr>"

definition demo_input :: turn_input where
  "demo_input = \<lparr>question = lit ''q'', chat_history = [HumanMessage (lit ''q'')]\<rparr>"

definition one_line :: pystr where
  "one_line = lit ''Tool: search_by_name | Query: a''"

definition three_lines :: pystr where
  "three_lines = lit ''Tool: search_by_name | Query: a'' @ [NEWLINE]
                 @ lit ''Tool: search_by_query | Query: b'' @ [NEWLINE]
                 @ lit ''Tool: recommend_alternatives | Query: c''"

text \<open>The state the Planner returns for \<open>demo_input\<close> when the plan is \<open>p\<close>.\<close>

definition planned :: "plan_step list \<Rightarrow> turn_state" where
  "planned p =
     \<lparr>question = lit ''q'', chat_history = [HumanMessage (lit ''q'')],
      plan = p, results = [], current_index = 0, done_flag = None, force_end = None,
      final_answer = None, calls = [PlannerCall]\<rparr>"

section \<open>Properties of the parsing\<close>

lemma split_acc_cur: "split_acc c cur xs = (cur @ hd (split_acc c [] xs)) # tl (split_acc c [] xs)"
proof (induction xs arbitrary: cur)
  case Nil
  show ?case by simp
next
  case (Cons x xs)
  show ?case
  proof (cases "x = c")
    case True
    then show ?thesis by simp
  next
    case False
    have "split_acc c (cur @ [x]) xs = ((cur @ [x]) @ hd (split_acc c [] xs)) # tl (split_acc c [] xs)"
      by (rule Cons.IH)
    moreover have "split_acc c [x] xs = ([x] @ hd (split_acc c [] xs)) # tl (split_acc c [] xs)"
      using Cons.IH[of "[x]"] by simp
    ultimately show ?thesis using False by simp
  qed
qed

lemma py_split_Nil: "py_split c [] = [[]]"
  by (simp add: py_split_def)

lemma py_split_Cons:
  "py_split c (x # xs) =
     (if x = c then [] # py_split c xs else (x # hd (py_split c xs)) # tl (py_split c xs))"
  using split_acc_cur[of c "[x]" xs] by (simp add: py_split_def)

lemma py_split_not_Nil: "py_split c xs \<noteq> []"
  by (cases xs) (simp_all add: py_split_Nil py_split_Cons)

lemma prefix_hd_split: "prefix m xs \<Longrightarrow> c \<notin> set m \<Longrightarrow> prefix m (hd (py_split c xs))"
proof (induction xs arbitrary: m)
  case Nil then show ?case by simp
next
  case (Cons x xs)
  show ?case
  proof (cases m)
    case Nil then show ?thesis by simp
  next
    case (Cons y m')
    with Cons.prems have "y = x" "prefix m' xs" "x \<noteq> c" "c \<notin> set m'" by auto
    with Cons.IH[of m'] Cons show ?thesis by (simp add: py_split_Cons)
  qed
qed

lemma sublist_in_part:
  "sublist m xs \<Longrightarrow> c \<notin> set m \<Longrightarrow> \<exists>p \<in> set (py_split c xs). sublist m p"
proof (induction xs)
  case Nil then show ?case by (simp add: py_split_Nil)
next
  case (Cons x xs)
  from Cons.prems(1) consider "prefix m (x # xs)" | "sublist m xs"
    by (auto simp: sublist_Cons_right)
  then show ?case
  proof cases
    case 1
    from prefix_hd_split[OF 1 Cons.prems(2)]
    have "sublist m (hd (py_split c (x # xs)))" by (rule prefix_imp_sublist)
    moreover have "hd (py_split c (x # xs)) \<in> set (py_split c (x # xs))"
      using py_split_not_Nil[of c "x # xs"] by (intro hd_in_set)
    ultimately show ?thesis by blast
  next
    case 2
    with Cons obtain p where p: "p \<in> set (py_split c xs)" "sublist m p" by blast
    show ?thesis
    proof (cases "x = c")
      case True with p show ?thesis by (auto simp: py_split_Cons)
    next
      case False
      from p(1) py_split_not_Nil[of c xs] consider "p = hd (py_split c xs)" | "p \<in> set (tl (py_split c xs))"
        by (cases "py_split c xs") auto
      then show ?thesis
      proof cases
        case 1
        with p(2) have "sublist m (x # hd (py_split c xs))" by (simp add: sublist_Cons_right)
        with False show ?thesis by (auto simp: py_split_Cons)
      next
        case 2 with False p(2) show ?thesis by (auto simp: py_split_Cons)
      qed
    qed
  qed
qed

lemma marks_no_pipe: "PIPE \<notin> set TOOL_MARK" "PIPE \<notin> set QUERY_MARK"
  by (simp_all add: PIPE_def TOOL_MARK_def QUERY_MARK_def lit_def)

lemma part_with_mark:
  assumes "sublist m line" "PIPE \<notin> set m"
  shows "filter (sublist m) (py_split PIPE line) \<noteq> []"
    and "first_part_with m (py_split PIPE line) = Inr (hd (filter (sublist m) (py_split PIPE line)))"
proof -
  from sublist_in_part[OF assms] show ne: "filter (sublist m) (py_split PIPE line) \<noteq> []"
    by (auto simp: filter_empty_conv)
  then show "first_part_with m (py_split PIPE line) = Inr (hd (filter (sublist m) (py_split PIPE line)))"
    by (cases "filter (sublist m) (py_split PIPE line)") (simp_all add: first_part_with_def)
qed

lemma parse_line_steps:
  assumes "sublist TOOL_MARK line" "sublist QUERY_MARK line"
  shows "\<exists>st. parse_line line = Inr st \<and> line_steps line = [st]"
  using assms
  by (simp add: parse_line_def line_steps_def Let_def part_with_mark(2) marks_no_pipe)

lemma parse_lines_steps:
  "parse_lines ls acc = Inr (acc @ concat (map line_steps ls))"
proof (induction ls arbitrary: acc)
  case Nil
  show ?case by simp
next
  case (Cons line rest)
  show ?case
  proof (cases "sublist TOOL_MARK line \<and> sublist QUERY_MARK line")
    case True
    then obtain st where pl: "parse_line line = Inr st" and ls: "line_steps line = [st]"
      using parse_line_steps by blast
    have "parse_lines (line # rest) acc = parse_lines rest (acc @ [st])"
      using True pl by simp
    also have "\<dots> = Inr ((acc @ [st]) @ concat (map line_steps rest))"
      by (rule Cons.IH)
    finally show ?thesis using ls by simp
  next
    case False
    then have "line_steps line = []" by (auto simp: line_steps_def)
    with False Cons.IH[of acc] show ?thesis by auto
  qed
qed

lemma length_concat_line_steps:
  "length (concat (map line_steps ls)) =
     length (filter (\<lambda>line. sublist TOOL_MARK line \<and> sublist QUERY_MARK line) ls)"
  by (induction ls) (simp_all add: line_steps_def)

lemmas parse_eval =
  parse_plan_def py_split_def lit_def parse_line_def first_part_with_def TOOL_MARK_def
  QUERY_MARK_def NEWLINE_def PIPE_def sublist_code py_remove.simps py_strip_def py_isspace_def
  line_steps_def

text \<open>
  C4, as the code has it. Parsing never fails, and the plan is what the lines of the response
  add, in order: a line adds a step if and only if it holds both the marker \<open>Tool:\<close> and the
  marker \<open>Query:\<close> (a pipe between them is not required). The tool name is the first
  pipe-separated part that holds \<open>Tool:\<close>, with every \<open>Tool:\<close> removed and the surrounding
  whitespace stripped; the query is read in the same way from the first part that holds
  \<open>Query:\<close>. Such a part exists for every line that holds the marker. Every other line adds
  no step, and an empty response gives an empty plan.
\<close>

theorem parse_plan_steps:
  "parse_plan response = Inr (concat (map line_steps (py_split NEWLINE response)))
   \<and> parse_plan [] = Inr []
   \<and> (sublist TOOL_MARK line \<longrightarrow> filter (sublist TOOL_MARK) (py_split PIPE line) \<noteq> [])
   \<and> (sublist QUERY_MARK line \<longrightarrow> filter (sublist QUERY_MARK) (py_split PIPE line) \<noteq> [])"
proof -
  have "parse_plan response = Inr (concat (map line_steps (py_split NEWLINE response)))"
    by (simp add: parse_plan_def parse_lines_steps)
  moreover have "parse_plan [] = Inr []"
    by (simp add: parse_plan_def py_split_Nil TOOL_MARK_def lit_def)
  ultimately show ?thesis
    using part_with_mark(1) marks_no_pipe by blast
qed

theorem parse_plan_steps_witness:
  "parse_plan (lit ''Tool: search_by_name| Query: Paracetamol'' @ [10] @ lit ''ok'')
     = Inr [\<lparr>tool = lit ''search_by_name'', query = lit ''Paracetamol''\<rparr>]
   \<and> sublist TOOL_MARK (lit ''Tool: x|y'')
   \<and> filter (sublist TOOL_MARK) (py_split PIPE (lit ''Tool: x|y'')) \<noteq> []
   \<and> sublist QUERY_MARK (lit ''a|Query: y'')
   \<and> filter (sublist QUERY_MARK) (py_split PIPE (lit ''a|Query: y'')) \<noteq> []"
proof -
  have "sublist TOOL_MARK (lit ''Tool: x|y'')"
    by (simp add: parse_eval)
  moreover have "sublist QUERY_MARK (lit ''a|Query: y'')"
    by (simp add: parse_eval)
  moreover have
    "concat (map line_steps
       (py_split NEWLINE (lit ''Tool: search_by_name| Query: Paracetamol'' @ [10] @ lit ''ok'')))
     = [\<lparr>tool = lit ''search_by_name'', query = lit ''Paracetamol''\<rparr>]"
    by (simp add: parse_eval)
  ultimately show ?thesis
    using parse_plan_steps
            [of "lit ''Tool: search_by_name| Query: Paracetamol'' @ [10] @ lit ''ok''"
                "lit ''Tool: x|y''"]
          parse_plan_steps [of "[]" "lit ''a|Query: y''"]
    by simp
qed

text \<open>
  C4, as the claim states it, fails: a line with both markers and no pipe still adds a step,
  and its query keeps the marker \<open>Tool:\<close>.
\<close>

theorem no_pipe_step_counterexample:
  "PIPE \<notin> set (lit ''Tool: a Query: b'')
   \<and> parse_plan (lit ''Tool: a Query: b'')
       = Inr [\<lparr>tool = lit ''a Query: b'', query = lit ''Tool: a  b''\<rparr>]"
  by (simp add: parse_eval)

text \<open>
  C8, as the code has it. The plan has exactly one step for each line of the response that
  holds both markers, so at most as many steps as the response has lines; the parsing puts
  no bound of 2 on it.
\<close>

theorem parse_plan_length:
  "\<exists>steps. parse_plan response = Inr steps
     \<and> length steps = length (filter (\<lambda>line. sublist TOOL_MARK line \<and> sublist QUERY_MARK line)
                                   (py_split NEWLINE response))
     \<and> length steps \<le> length (py_split NEWLINE response)"
  by (simp add: parse_plan_def parse_lines_steps length_concat_line_steps)

theorem parse_plan_length_witness:
  "\<exists>steps. parse_plan (lit ''Tool: a | Query: x'' @ [NEWLINE] @ lit ''no step here'') = Inr steps
     \<and> length steps = 1 \<and> length steps \<le> 2"
  using parse_plan_length [of "lit ''Tool: a | Query: x'' @ [NEWLINE] @ lit ''no step here''"]
  by (simp add: parse_eval)

text \<open>
  C8, as the claim states it, fails: a response of three well-formed lines gives a plan of
  three steps.
\<close>

theorem three_step_plan_counterexample:
  "(case parse_plan (lit ''Tool: a | Query: x'' @ [NEWLINE] @ lit ''Tool: b | Query: y''
                       @ [NEWLINE] @ lit ''Tool: c | Query: z'') of
      Inl e \<Rightarrow> False
    | Inr steps \<Rightarrow> \<not> length steps \<le> 2)"
  by (simp add: parse_eval)

section \<open>Properties of the Executor and of a turn\<close>

lemma executor_node_done:
  "length (plan s) \<le> current_index s \<Longrightarrow> executor_node env s = Inr (s\<lparr>done_flag := Some True\<rparr>)"
  by (simp add: executor_node_def)

lemma executor_node_raise:
  "current_index s < length (plan s) \<Longrightarrow>
   run_tool env (calls s) (tool (plan s ! current_index s)) (query (plan s ! current_index s)) = Inl e \<Longrightarrow>
   executor_node env s = Inl e"
  by (simp add: executor_node_def Let_def)

lemma executor_node_step:
  "current_index s < length (plan s) \<Longrightarrow>
   run_tool env (calls s) (tool (plan s ! current_index s)) (query (plan s ! current_index s)) = Inr (r, cs) \<Longrightarrow>
   executor_node env s =
     Inr (s\<lparr>results := results s @ [\<lparr>tool = tool (plan s ! current_index s),
                                       query = query (plan s ! current_index s), result = r\<rparr>],
            current_index := current_index s + 1,
            force_end := Some (3 \<le> current_index s + 1 \<and>
               filter (\<lambda>x. truthy (result x))
                 (results s @ [\<lparr>tool = tool (plan s ! current_index s),
                                 query = query (plan s ! current_index s), result = r\<rparr>]) = []),
            final_answer := Some (if 3 \<le> current_index s + 1 \<and>
               filter (\<lambda>x. truthy (result x))
                 (results s @ [\<lparr>tool = tool (plan s ! current_index s),
                                 query = query (plan s ! current_index s), result = r\<rparr>]) = []
               then Some FALLBACK_ANSWER else None),
            calls := cs\<rparr>)"
  by (simp add: executor_node_def Let_def)

lemma executor_node_cases:
  assumes "executor_node env s = Inr s'"
  obtains (finished) "length (plan s) \<le> current_index s" "s' = s\<lparr>done_flag := Some True\<rparr>"
  | (stepped) r cs where "current_index s < length (plan s)"
      "run_tool env (calls s) (tool (plan s ! current_index s)) (query (plan s ! current_index s)) = Inr (r, cs)"
      "plan s' = plan s" "current_index s' = current_index s + 1"
      "results s' = results s @ [\<lparr>tool = tool (plan s ! current_index s),
                                       query = query (plan s ! current_index s), result = r\<rparr>]"
      "calls s' = cs"
proof (cases "length (plan s) \<le> current_index s")
  case True
  with assms have "s' = s\<lparr>done_flag := Some True\<rparr>" by (simp add: executor_node_done)
  with True show ?thesis by (rule finished)
next
  case False
  then have lt: "current_index s < length (plan s)" by simp
  show ?thesis
  proof (cases "run_tool env (calls s) (tool (plan s ! current_index s)) (query (plan s ! current_index s))")
    case (Inl e)
    with lt assms show ?thesis by (simp add: executor_node_raise)
  next
    case (Inr p)
    obtain r cs where p: "p = (r, cs)" by (cases p)
    from executor_node_step[OF lt Inr[unfolded p]] assms
    have "plan s' = plan s" "current_index s' = current_index s + 1"
      "results s' = results s @ [\<lparr>tool = tool (plan s ! current_index s),
                                       query = query (plan s ! current_index s), result = r\<rparr>]"
      "calls s' = cs"
      by auto
    with lt Inr p show ?thesis by (intro stepped) auto
  qed
qed

lemma planner_node_state:
  assumes "planner_node env inp = Inr s"
  shows "current_index s = 0" "results s = []" "calls s = [PlannerCall]"
    "question s = question inp" "chat_history s = chat_history inp"
    "force_end s = None" "final_answer s = None" "done_flag s = None"
  using assms by (auto simp: planner_node_def split: sum.splits)

lemma executor_runs_inv:
  "executor_runs env inp s \<Longrightarrow>
     current_index s \<le> length (plan s) \<and> length (results s) = current_index s"
proof (induction rule: executor_runs.induct)
  case (first s)
  then show ?case by (simp add: planner_node_state)
next
  case (again s s')
  from again.hyps(2) show ?case
  proof (cases rule: executor_node_cases)
    case finished
    with again.IH show ?thesis by simp
  next
    case (stepped r cs)
    with again.IH show ?thesis by simp
  qed
qed

lemma run_tool_unknown:
  "tool_name \<notin> set tools_keys \<Longrightarrow> run_tool env cs tool_name q = Inr (Text (tool_not_found tool_name), cs)"
  by (simp add: run_tool_def tools_get_def)

lemma run_tool_raise_known:
  "run_tool env cs tool_name q = Inl e \<Longrightarrow> tool_name \<in> set tools_keys"
  by (rule ccontr) (simp add: run_tool_unknown)

lemmas turn_eval =
  run_def graph_invoke_def planner_node_def executor_loop.simps executor_node_def run_tool_def
  tools_get_def tools_keys_def RECOMMEND_BY_INDICATIONS_def should_continue_def
  summarizer_node_def store_answer_def Let_def demo_env_def demo_input_def one_line_def
  three_lines_def parse_eval

text \<open>
  C5. Within a turn, whenever the graph runs the Executor on a state and the Executor returns,
  the cursor \<open>current_index\<close> has not decreased, it does not exceed the length of the plan,
  and the results buffer is as long as the cursor; the same bounds hold of the state the
  Executor was run on, and the plan is unchanged.
\<close>

theorem cursor_invariant:
  assumes "executor_runs env inp s" and "executor_node env s = Inr s'"
  shows "current_index s \<le> length (plan s) \<and> length (results s) = current_index s
       \<and> plan s' = plan s
       \<and> current_index s \<le> current_index s'
       \<and> current_index s' \<le> length (plan s')
       \<and> length (results s') = current_index s'"
proof -
  note inv = executor_runs_inv[OF assms(1)]
  from assms(2) show ?thesis
  proof (cases rule: executor_node_cases)
    case finished
    with inv show ?thesis by simp
  next
    case (stepped r cs)
    with inv show ?thesis by simp
  qed
qed

theorem cursor_invariant_witness:
  "\<exists>s s'. executor_runs (demo_env one_line (Inr (Text (lit ''r'')))) demo_input s
     \<and> executor_node (demo_env one_line (Inr (Text (lit ''r'')))) s = Inr s'
     \<and> current_index s = 0 \<and> results s = [] \<and> length (plan s) = 1
     \<and> current_index s' = 1 \<and> length (results s') = 1 \<and> plan s' = plan s"
proof -
  let ?E = "demo_env one_line (Inr (Text (lit ''r'')))"
  let ?s = "planned [\<lparr>tool = lit ''search_by_name'', query = lit ''a''\<rparr>]"
  let ?s' = "?s\<lparr>results := [\<lparr>tool = lit ''search_by_name'', query = lit ''a'',
                                 result = Text (lit ''r'')\<rparr>],
                 current_index := 1, force_end := Some False, final_answer := Some None,
                 calls := [PlannerCall, ToolCall (lit ''search_by_name'') (lit ''a'')]\<rparr>"
  have "planner_node ?E demo_input = Inr ?s"
    by (simp add: turn_eval planned_def)
  then have r: "executor_runs ?E demo_input ?s"
    by (rule executor_runs.first)
  have e: "executor_node ?E ?s = Inr ?s'"
    by (simp add: turn_eval planned_def)
  from cursor_invariant [OF r e] r e show ?thesis
    by (intro exI [of _ ?s] exI [of _ ?s']) (simp add: planned_def)
qed

lemma executor_runs_loop:
  "executor_runs env inp s \<Longrightarrow>
     \<exists>s0. planner_node env inp = Inr s0 \<and> executor_loop env s0 = executor_loop env s"
proof (induction rule: executor_runs.induct)
  case (first s)
  then show ?case by simp
next
  case (again s s')
  from again.hyps(2,3) have "executor_loop env s = executor_loop env s'"
    by (simp add: executor_loop.simps)
  with again.IH show ?case by simp
qed

lemma executor_runs_graph:
  "executor_runs env inp s \<Longrightarrow> graph_invoke env inp = executor_loop env s"
  using executor_runs_loop[of env inp s] by (auto simp: graph_invoke_def)

text \<open>
  C6. For a plan step whose tool name is not one of the four registry keys, the Executor
  does not raise: it returns a state whose results buffer is longer by one result, whose
  text is \<open>Tool '\<close>, the name and \<open>' kh\<dots>ng t\<dots>n t\<dots>i.\<close> (does not exist), given here by its
  code points, and whose cursor is advanced by one. That text is never empty. No tool is
  called.
\<close>

theorem unknown_tool_recorded:
  assumes "current_index s < length (plan s)"
    and "tool (plan s ! current_index s) \<notin> set tools_keys"
  shows "\<exists>s'. executor_node env s = Inr s'
           \<and> results s' = results s @
                 [\<lparr>tool = tool (plan s ! current_index s),
                   query = query (plan s ! current_index s),
                   result = Text (lit ''Tool '' @ [39] @ tool (plan s ! current_index s) @
                     [39, 32, 107, 104, 244, 110, 103, 32, 116, 7891, 110, 32,
                      116, 7841, 105, 46])\<rparr>]
           \<and> truthy (result (last (results s')))
           \<and> current_index s' = current_index s + 1
           \<and> calls s' = calls s"
proof -
  have "run_tool env (calls s) (tool (plan s ! current_index s))
          (query (plan s ! current_index s))
        = Inr (Text (tool_not_found (tool (plan s ! current_index s))), calls s)"
    using assms(2) by (rule run_tool_unknown)
  from executor_node_step[OF assms(1) this] show ?thesis
    by (simp add: tool_not_found_def)
qed

theorem unknown_tool_recorded_witness:
  "current_index (planned [\<lparr>tool = lit ''nope'', query = lit ''x''\<rparr>])
     < length (plan (planned [\<lparr>tool = lit ''nope'', query = lit ''x''\<rparr>]))
   \<and> lit ''nope'' \<notin> set tools_keys
   \<and> (\<exists>s'. executor_node (demo_env [] (Inr (Text [])))
              (planned [\<lparr>tool = lit ''nope'', query = lit ''x''\<rparr>]) = Inr s'
          \<and> results s' = [\<lparr>tool = lit ''nope'', query = lit ''x'',
                            result = Text [84, 111, 111, 108, 32, 39, 110, 111, 112, 101,
                              39, 32, 107, 104, 244, 110, 103, 32, 116, 7891, 110, 32,
                              116, 7841, 105, 46]\<rparr>]
          \<and> truthy (result (last (results s')))
          \<and> current_index s' = 1
          \<and> calls s' = [PlannerCall])"
proof -
  let ?s = "planned [\<lparr>tool = lit ''nope'', query = lit ''x''\<rparr>]"
  have i: "current_index ?s < length (plan ?s)"
    by (simp add: planned_def)
  have n: "tool (plan ?s ! current_index ?s) \<notin> set tools_keys"
    by (simp add: planned_def tools_keys_def RECOMMEND_BY_INDICATIONS_def lit_def)
  from unknown_tool_recorded [OF i n, of "demo_env [] (Inr (Text []))"] i n show ?thesis
    by (simp add: planned_def lit_def)
qed

text \<open>
  C2, as the code has it. The Executor has no handler: when the call of the tool found in
  the registry raises (the tool itself, or the JSON decoding of its query), the exception
  leaves the Executor, no state is returned (so no result is recorded and the cursor is not
  advanced), and the loop started from that state ends with the same exception without
  reaching the Summarizer. When the state is one on which the graph runs the Executor in a
  turn, the turn fails with that exception: so does the graph, and \<open>run\<close> ends with it,
  leaving the memory with the user message and no assistant message.
\<close>

theorem tool_exception_propagates:
  assumes "current_index s < length (plan s)"
    and "run_tool env (calls s) (tool (plan s ! current_index s))
           (query (plan s ! current_index s)) = Inl e"
  shows "tool (plan s ! current_index s) \<in> set tools_keys
       \<and> executor_node env s = Inl e
       \<and> executor_loop env s = Inl e
       \<and> (executor_runs env inp s \<longrightarrow> graph_invoke env inp = Inl e)
       \<and> (executor_runs env \<lparr>question = q, chat_history = memory @ [HumanMessage q]\<rparr> s \<longrightarrow>
            run env memory q = (Inl e, memory @ [HumanMessage q]))"
proof -
  have node: "executor_node env s = Inl e"
    using assms by (rule executor_node_raise)
  then have loop: "executor_loop env s = Inl e"
    by (simp add: executor_loop.simps)
  have turn: "graph_invoke env i = Inl e" if "executor_runs env i s" for i
    using executor_runs_graph[OF that] loop by simp
  have "run env memory q = (Inl e, memory @ [HumanMessage q])"
    if "executor_runs env \<lparr>question = q, chat_history = memory @ [HumanMessage q]\<rparr> s"
    using turn[OF that] by (simp add: run_def Let_def)
  with node loop turn run_tool_raise_known[OF assms(2)] show ?thesis
    by blast
qed

theorem tool_exception_propagates_witness:
  "current_index (planned [\<lparr>tool = lit ''search_by_name'', query = lit ''a''\<rparr>])
     < length (plan (planned [\<lparr>tool = lit ''search_by_name'', query = lit ''a''\<rparr>]))
   \<and> run_tool (demo_env one_line (Inl (ExternalError (lit ''store down''))))
        [PlannerCall] (lit ''search_by_name'') (lit ''a'')
       = Inl (ExternalError (lit ''store down''))
   \<and> executor_runs (demo_env one_line (Inl (ExternalError (lit ''store down''))))
        \<lparr>question = lit ''q'', chat_history = [] @ [HumanMessage (lit ''q'')]\<rparr>
        (planned [\<lparr>tool = lit ''search_by_name'', query = lit ''a''\<rparr>])
   \<and> lit ''search_by_name'' \<in> set tools_keys
   \<and> executor_node (demo_env one_line (Inl (ExternalError (lit ''store down''))))
        (planned [\<lparr>tool = lit ''search_by_name'', query = lit ''a''\<rparr>])
       = Inl (ExternalError (lit ''store down''))
   \<and> executor_loop (demo_env one_line (Inl (ExternalError (lit ''store down''))))
        (planned [\<lparr>tool = lit ''search_by_name'', query = lit ''a''\<rparr>])
       = Inl (ExternalError (lit ''store down''))
   \<and> graph_invoke (demo_env one_line (Inl (ExternalError (lit ''store down''))))
        \<lparr>question = lit ''q'', chat_history = [] @ [HumanMessage (lit ''q'')]\<rparr>
       = Inl (ExternalError (lit ''store down''))
   \<and> run (demo_env one_line (Inl (ExternalError (lit ''store down'')))) [] (lit ''q'')
       = (Inl (ExternalError (lit ''store down'')), [] @ [HumanMessage (lit ''q'')])"
proof -
  let ?E = "demo_env one_line (Inl (ExternalError (lit ''store down'')))"
  let ?s = "planned [\<lparr>tool = lit ''search_by_name'', query = lit ''a''\<rparr>]"
  let ?i = "\<lparr>question = lit ''q'', chat_history = [] @ [HumanMessage (lit ''q'')]\<rparr>"
  have i: "current_index ?s < length (plan ?s)"
    by (simp add: planned_def)
  have r: "run_tool ?E (calls ?s) (tool (plan ?s ! current_index ?s))
             (query (plan ?s ! current_index ?s)) = Inl (ExternalError (lit ''store down''))"
    by (simp add: planned_def run_tool_def tools_get_def tools_keys_def
                  RECOMMEND_BY_INDICATIONS_def demo_env_def lit_def)
  have "planner_node ?E ?i = Inr ?s"
    by (simp add: planner_node_def demo_env_def one_line_def planned_def parse_eval)
  then have x: "executor_runs ?E ?i ?s"
    by (rule executor_runs.first)
  from tool_exception_propagates [OF i r, of ?i "lit ''q''" "[]"] i r x show ?thesis
    by (simp add: planned_def)
qed

text \<open>
  C2, as the claim states it, fails: with a one-step plan and a tool that raises, the
  Executor raises and \<open>run\<close> ends with the exception, the memory holding the user message
  only.
\<close>

theorem tool_exception_counterexample:
  "executor_node (demo_env one_line (Inl (ExternalError (lit ''store down''))))
     (planned [\<lparr>tool = lit ''search_by_name'', query = lit ''a''\<rparr>])
     = Inl (ExternalError (lit ''store down''))
   \<and> run (demo_env one_line (Inl (ExternalError (lit ''store down'')))) [] (lit ''q'')
     = (Inl (ExternalError (lit ''store down'')), [HumanMessage (lit ''q'')])"
  by (simp add: turn_eval planned_def)

text \<open>
  C7. When the Planner produces an empty plan, the turn is the Planner's state passed through
  the Summarizer: the Summarizer is called once, with an empty results buffer, and the log of
  calls holds no tool call.
\<close>

theorem empty_plan_reaches_summarizer:
  assumes "planner_node env inp = Inr s" and "plan s = []"
  shows "graph_invoke env inp =
          (case llm_summarize env [PlannerCall] (question inp) (chat_history inp) [] of
             Inl e \<Rightarrow> Inl e
           | Inr a \<Rightarrow> Inr (s\<lparr>done_flag := Some True,
                             final_answer := Some (Some a),
                             calls := [PlannerCall, SummarizerCall []]\<rparr>))"
proof -
  have fin: "executor_node env s = Inr (s\<lparr>done_flag := Some True\<rparr>)"
    using assms(2) by (simp add: executor_node_done)
  have "\<not> should_continue (s\<lparr>done_flag := Some True\<rparr>)"
    using assms(2) by (simp add: should_continue_def)
  with fin have "executor_loop env s = summarizer_node env (s\<lparr>done_flag := Some True\<rparr>)"
    by (simp add: executor_loop.simps)
  then have "graph_invoke env inp = summarizer_node env (s\<lparr>done_flag := Some True\<rparr>)"
    using assms(1) by (simp add: graph_invoke_def)
  then show ?thesis
    using planner_node_state[OF assms(1)]
    by (simp add: summarizer_node_def split: sum.splits)
qed

theorem empty_plan_reaches_summarizer_witness:
  "planner_node (demo_env [] (Inr (Text []))) demo_input = Inr (planned [])
   \<and> plan (planned []) = []
   \<and> graph_invoke (demo_env [] (Inr (Text []))) demo_input
       = Inr ((planned [])\<lparr>done_flag := Some True,
                            final_answer := Some (Some (lit ''summary'')),
                            calls := [PlannerCall, SummarizerCall []]\<rparr>)"
proof -
  let ?E = "demo_env [] (Inr (Text []))"
  have p: "planner_node ?E demo_input = Inr (planned [])"
    by (simp add: turn_eval planned_def)
  have e: "plan (planned []) = []"
    by (simp add: planned_def)
  from empty_plan_reaches_summarizer [OF p e] p e show ?thesis
    by (simp add: demo_env_def)
qed



text \<open>
  C1 does not hold of the code. With a plan of three steps whose tools all return the empty
  string, the third Executor step sets \<open>force_end\<close> and the fallback answer, but the graph
  then runs the Summarizer, which replaces the answer: the call log ends with a Summarizer
  call, and \<open>run\<close> returns the summary, not the fallback text.
\<close>

theorem forced_stop_still_summarizes:
  "run (demo_env three_lines (Inr (Text []))) [] (lit ''q'')
     = (Inr (lit ''summary''), [HumanMessage (lit ''q''), AIMessage (lit ''summary'')])
   \<and> lit ''summary'' \<noteq> FALLBACK_ANSWER
   \<and> (case graph_invoke (demo_env three_lines (Inr (Text []))) demo_input of
        Inl e \<Rightarrow> False
      | Inr s \<Rightarrow>
          force_end s = Some True
          \<and> calls s =
              [PlannerCall,
               ToolCall (lit ''search_by_name'') (lit ''a''),
               ToolCall (lit ''search_by_query'') (lit ''b''),
               ToolCall (lit ''recommend_alternatives'') (lit ''c''),
               SummarizerCall
                 [\<lparr>tool = lit ''search_by_name'', query = lit ''a'', result = Text []\<rparr>,
                  \<lparr>tool = lit ''search_by_query'', query = lit ''b'', result = Text []\<rparr>,
                  \<lparr>tool = lit ''recommend_alternatives'', query = lit ''c'', result = Text []\<rparr>]])"
  by (simp add: turn_eval FALLBACK_ANSWER_def)


section \<open>Properties of \<open>recommend_alternatives\<close>\<close>

lemma gather_concat:
  "gather s rel ts alts = alts @ concat (map (\<lambda>t. find_relations s (node_id t) rel In) ts)"
  by (induction ts arbitrary: alts) simp_all

lemma alternatives_neighbours:
  "alternatives s (node_id medicine) rel = neighbours s medicine rel"
  by (simp add: alternatives_def neighbours_def gather_concat)

lemma tally_append: "tally mid (xs @ ys) sc = tally mid ys (tally mid xs sc)"
  by (induction xs arbitrary: sc) simp_all

lemma tally_filter:
  "tally mid ms sc = tally mid (filter (\<lambda>m. node_id m \<noteq> mid) ms) sc"
  by (induction ms arbitrary: sc) simp_all

lemma map_of_bump:
  "map_of (bump sc n md) = (map_of sc)(n \<mapsto> (cnt sc n + 1, md))"
  by (induction sc n md rule: bump.induct) (auto simp: cnt_def fun_eq_iff)

lemma keys_bump:
  "map fst (bump sc n md) = (if n \<in> fst ` set sc then map fst sc else map fst sc @ [n])"
  by (induction sc n md rule: bump.induct) auto

lemma cnt_bump: "cnt (bump sc n md) k = (if k = n then cnt sc n + 1 else cnt sc k)"
  by (simp add: cnt_def map_of_bump)

lemma distinct_bump: "distinct (map fst sc) \<Longrightarrow> distinct (map fst (bump sc n md))"
  by (simp add: keys_bump)

lemma set_keys_bump: "fst ` set (bump sc n md) = insert n (fst ` set sc)"
  by (induction sc n md rule: bump.induct) auto

lemma tally_props:
  "distinct (map fst sc) \<Longrightarrow>
     distinct (map fst (tally mid ms sc))
     \<and> (\<forall>k. cnt (tally mid ms sc) k
            = cnt sc k + length (filter (\<lambda>m. name m = k \<and> node_id m \<noteq> mid) ms))
     \<and> fst ` set (tally mid ms sc)
         = fst ` set sc \<union> name ` {m \<in> set ms. node_id m \<noteq> mid}"
proof (induction ms arbitrary: sc)
  case Nil
  then show ?case by simp
next
  case (Cons m ms)
  show ?case
  proof (cases "node_id m \<noteq> mid")
    case True
    let ?sc = "bump sc (name m) (case metadata m of None \<Rightarrow> lit ''{}'' | Some d \<Rightarrow> d)"
    have d: "distinct (map fst ?sc)" using Cons.prems by (rule distinct_bump)
    from Cons.IH[OF d] True show ?thesis
      by (auto simp: cnt_bump set_keys_bump)
  next
    case False
    with Cons.IH[OF Cons.prems] show ?thesis by auto
  qed
qed

lemma cnt_entry:
  "distinct (map fst sc) \<Longrightarrow> (n, c, d) \<in> set sc \<Longrightarrow> cnt sc n = c"
  by (simp add: cnt_def)

lemma bump_origin:
  "(n, c, d) \<in> set (bump sc k md) \<Longrightarrow> (n = k \<and> d = md) \<or> (n, c, d) \<in> set sc"
  by (induction sc k md rule: bump.induct) (auto split: if_splits)

lemma tally_origin:
  "(n, c, d) \<in> set (tally mid ms sc) \<Longrightarrow>
     (\<exists>c'. (n, c', d) \<in> set sc)
     \<or> (\<exists>m \<in> set ms. name m = n \<and> node_id m \<noteq> mid
            \<and> d = (case metadata m of None \<Rightarrow> lit ''{}'' | Some x \<Rightarrow> x))"
proof (induction ms arbitrary: sc)
  case Nil
  then show ?case by auto
next
  case (Cons m ms)
  show ?case
  proof (cases "node_id m \<noteq> mid")
    case True
    with Cons.prems Cons.IH[of "bump sc (name m) (case metadata m of None \<Rightarrow> lit ''{}'' | Some x \<Rightarrow> x)"]
    show ?thesis by (auto dest: bump_origin)
  next
    case False
    with Cons.prems Cons.IH[of sc] show ?thesis by auto
  qed
qed

lemma ranked_tally:
  "ranked_alternatives s medicine =
     sort_key (\<lambda>x. - int (score x))
       (map mk_rec (tally (node_id medicine) (all_alternatives s medicine) []))"
  by (simp add: ranked_alternatives_def Let_def alternatives_neighbours all_alternatives_def
                tally_append mk_rec_def)

lemma set_ranked:
  "set (ranked_alternatives s medicine) =
     mk_rec ` set (tally (node_id medicine) (all_alternatives s medicine) [])"
  by (simp add: ranked_tally)






lemma ranked_entry:
  assumes "r \<in> set (ranked_alternatives s medicine)"
  shows "score r = occurrences medicine (rec_name r) (all_alternatives s medicine)"
    and "0 < score r"
    and "\<exists>m \<in> set (all_alternatives s medicine). name m = rec_name r
            \<and> node_id m \<noteq> node_id medicine
            \<and> rec_metadata r = (case metadata m of None \<Rightarrow> lit ''{}'' | Some x \<Rightarrow> x)"
proof -
  let ?sc = "tally (node_id medicine) (all_alternatives s medicine) []"
  from assms obtain n c d where e: "(n, c, d) \<in> set ?sc" and r: "r = mk_rec (n, c, d)"
    by (auto simp: set_ranked)
  have props: "distinct (map fst ?sc)"
    "\<And>k. cnt ?sc k = cnt [] k + length (filter (\<lambda>m. name m = k \<and> node_id m \<noteq> node_id medicine)
                                        (all_alternatives s medicine))"
    "fst ` set ?sc = fst ` set [] \<union> name ` {m \<in> set (all_alternatives s medicine). node_id m \<noteq> node_id medicine}"
    using tally_props[of "[]" "node_id medicine" "all_alternatives s medicine"] by simp_all
  from cnt_entry[OF props(1) e] props(2)[of n]
  have c: "c = occurrences medicine n (all_alternatives s medicine)"
    by (simp add: cnt_def occurrences_def)
  with r show "score r = occurrences medicine (rec_name r) (all_alternatives s medicine)"
    by (simp add: mk_rec_def)
  from e have "n \<in> fst ` set ?sc" by force
  with props(3) have "n \<in> name ` {m \<in> set (all_alternatives s medicine). node_id m \<noteq> node_id medicine}"
    by simp
  then have "0 < occurrences medicine n (all_alternatives s medicine)"
    by (auto simp: occurrences_def filter_empty_conv)
  with c r show "0 < score r" by (simp add: mk_rec_def)
  from tally_origin[OF e] r
  show "\<exists>m \<in> set (all_alternatives s medicine). name m = rec_name r
            \<and> node_id m \<noteq> node_id medicine
            \<and> rec_metadata r = (case metadata m of None \<Rightarrow> lit ''{}'' | Some x \<Rightarrow> x)"
    by (auto simp: mk_rec_def)
qed




lemma demo_ids:
  "node_id (demo_node i n) = lit i" "name (demo_node i n) = lit n"
  "metadata (demo_node i n) = Some (lit ''{}'')"
  by (simp_all add: demo_node_def)

lemma demo_rels:
  "LOAI_THUOC \<noteq> CHI_DINH" "LOAI_THUOC \<noteq> THANH_PHAN" "CHI_DINH \<noteq> THANH_PHAN"
  "CHI_DINH \<noteq> LOAI_THUOC" "THANH_PHAN \<noteq> LOAI_THUOC" "THANH_PHAN \<noteq> CHI_DINH"
  by (simp_all add: LOAI_THUOC_def CHI_DINH_def THANH_PHAN_def)

lemma demo_lits:
  "lit ''t'' \<noteq> lit ''a''" "lit ''t'' \<noteq> lit ''b''" "lit ''a'' \<noteq> lit ''t''" "lit ''b'' \<noteq> lit ''t''"
  "lit ''ty'' \<noteq> lit ''t''" "lit ''g'' \<noteq> lit ''t''"
  "lit ''A'' \<noteq> lit ''B''" "lit ''B'' \<noteq> lit ''A''" "lit ''T'' \<noteq> lit ''A''" "lit ''T'' \<noteq> lit ''B''"
  by (simp_all add: lit_def)

lemma demo_neighbours:
  "neighbours demo_searcher (demo_node ''t'' ''T'') LOAI_THUOC
     = [demo_node ''t'' ''T'', demo_node ''a'' ''A'']"
  "neighbours demo_searcher (demo_node ''t'' ''T'') CHI_DINH
     = [demo_node ''t'' ''T'', demo_node ''b'' ''B'', demo_node ''t'' ''T'', demo_node ''b'' ''B'',
        demo_node ''t'' ''T'', demo_node ''b'' ''B'', demo_node ''t'' ''T'', demo_node ''b'' ''B'']"
  "neighbours demo_searcher (demo_node ''t'' ''T'') THANH_PHAN
     = [demo_node ''t'' ''T'', demo_node ''a'' ''A'']"
  by (simp_all add: neighbours_def demo_searcher_def demo_ids demo_rels lit_def)

lemma demo_all:
  "all_alternatives demo_searcher (demo_node ''t'' ''T'')
     = [demo_node ''t'' ''T'', demo_node ''a'' ''A'',
        demo_node ''t'' ''T'', demo_node ''b'' ''B'', demo_node ''t'' ''T'', demo_node ''b'' ''B'',
        demo_node ''t'' ''T'', demo_node ''b'' ''B'', demo_node ''t'' ''T'', demo_node ''b'' ''B'',
        demo_node ''t'' ''T'', demo_node ''a'' ''A'']"
  by (simp add: all_alternatives_def demo_neighbours)

lemma demo_ranked:
  "ranked_alternatives demo_searcher (demo_node ''t'' ''T'')
     = [\<lparr>rec_name = lit ''B'', score = 4, rec_metadata = lit ''{}''\<rparr>,
        \<lparr>rec_name = lit ''A'', score = 2, rec_metadata = lit ''{}''\<rparr>]"
  by (simp add: ranked_tally demo_all demo_ids demo_lits mk_rec_def)


lemma format_recs_lines:
  "format_recs (\<lambda>md. Inr (d md)) rs out =
     Inr (Text (out @ concat (map (\<lambda>r. [84, 234, 110, 58, 32] @ rec_name r @ [32]
               @ [77, 105, 234, 117, 32, 116, 7843, 32, 110, 103, 7855, 110, 58, 32]
               @ d (rec_metadata r) @ [10]) rs)))"
  by (induction rs arbitrary: out) simp_all




text \<open>
  C10. When a medicine is resolved, every candidate written to the answer takes its name and
  its metadata from a gathered node whose id differs from the id of the medicine, and the
  ranking is the same as the one computed from the gathered nodes with every node bearing
  the id of the medicine removed: the medicine itself never contributes to the output. The
  text returned, when every short description is read without error, is one line per
  candidate, in that order, made of the two labels, the name and the short description.
\<close>

theorem target_never_recommended:
  assumes "find_medicine_regex s keyword = medicine # others"
  shows "recommend_alternatives short_description s keyword top_k
           = format_recs short_description (take top_k (ranked_alternatives s medicine)) []
       \<and> (\<forall>r \<in> set (take top_k (ranked_alternatives s medicine)).
             \<exists>m \<in> set (all_alternatives s medicine).
               node_id m \<noteq> node_id medicine
               \<and> rec_name r = name m
               \<and> rec_metadata r = (case metadata m of None \<Rightarrow> lit ''{}'' | Some x \<Rightarrow> x))
       \<and> ranked_alternatives s medicine
           = sort_key (\<lambda>x. - int (score x))
               (map (\<lambda>(n, c, d). \<lparr>rec_name = n, score = c, rec_metadata = d\<rparr>)
                  (tally (node_id medicine)
                     (filter (\<lambda>m. node_id m \<noteq> node_id medicine) (all_alternatives s medicine))
                     []))
       \<and> recommend_alternatives (\<lambda>md. Inr (d md)) s keyword top_k
           = Inr (Text (concat (map (\<lambda>r. [84, 234, 110, 58, 32] @ rec_name r @ [32]
               @ [77, 105, 234, 117, 32, 116, 7843, 32, 110, 103, 7855, 110, 58, 32]
               @ d (rec_metadata r) @ [10]) (take top_k (ranked_alternatives s medicine)))))"
proof -
  have txt_eq: "recommend_alternatives (\<lambda>md. Inr (d md)) s keyword top_k
           = Inr (Text (concat (map (\<lambda>r. [84, 234, 110, 58, 32] @ rec_name r @ [32]
               @ [77, 105, 234, 117, 32, 116, 7843, 32, 110, 103, 7855, 110, 58, 32]
               @ d (rec_metadata r) @ [10]) (take top_k (ranked_alternatives s medicine)))))"
    using assms by (simp add: recommend_alternatives_def format_recs_lines)
  have out: "recommend_alternatives short_description s keyword top_k
           = format_recs short_description (take top_k (ranked_alternatives s medicine)) []"
    using assms by (simp add: recommend_alternatives_def)
  have origin: "\<exists>m \<in> set (all_alternatives s medicine).
               node_id m \<noteq> node_id medicine
               \<and> rec_name r = name m
               \<and> rec_metadata r = (case metadata m of None \<Rightarrow> lit ''{}'' | Some x \<Rightarrow> x)"
    if "r \<in> set (take top_k (ranked_alternatives s medicine))" for r
  proof -
    from that have "r \<in> set (ranked_alternatives s medicine)"
      by (rule in_set_takeD)
    from ranked_entry(3)[OF this] show ?thesis by auto
  qed
  have "ranked_alternatives s medicine
           = sort_key (\<lambda>x. - int (score x))
               (map (\<lambda>(n, c, d). \<lparr>rec_name = n, score = c, rec_metadata = d\<rparr>)
                  (tally (node_id medicine)
                     (filter (\<lambda>m. node_id m \<noteq> node_id medicine) (all_alternatives s medicine))
                     []))"
    using tally_filter[of "node_id medicine" "all_alternatives s medicine" "[]"]
    by (simp add: ranked_tally mk_rec_def)
  with out txt_eq show ?thesis
    by (intro conjI ballI) (simp_all only: origin)
qed

theorem target_never_recommended_witness:
  "find_medicine_regex demo_searcher (lit ''T'') = demo_node ''t'' ''T'' # []
   \<and> demo_node ''t'' ''T'' \<in> set (all_alternatives demo_searcher (demo_node ''t'' ''T''))
   \<and> take 5 (ranked_alternatives demo_searcher (demo_node ''t'' ''T''))
       = [\<lparr>rec_name = lit ''B'', score = 4, rec_metadata = lit ''{}''\<rparr>,
          \<lparr>rec_name = lit ''A'', score = 2, rec_metadata = lit ''{}''\<rparr>]
   \<and> filter (\<lambda>m. node_id m \<noteq> node_id (demo_node ''t'' ''T''))
        (all_alternatives demo_searcher (demo_node ''t'' ''T''))
       = [demo_node ''a'' ''A'', demo_node ''b'' ''B'', demo_node ''b'' ''B'',
          demo_node ''b'' ''B'', demo_node ''b'' ''B'', demo_node ''a'' ''A'']
   \<and> (\<exists>m. m \<in> set (all_alternatives demo_searcher (demo_node ''t'' ''T''))
          \<and> node_id m \<noteq> node_id (demo_node ''t'' ''T'')
          \<and> lit ''B'' = name m
          \<and> lit ''{}'' = (case metadata m of None \<Rightarrow> lit ''{}'' | Some x \<Rightarrow> x))
   \<and> (\<exists>m. m \<in> set (all_alternatives demo_searcher (demo_node ''t'' ''T''))
          \<and> node_id m \<noteq> node_id (demo_node ''t'' ''T'')
          \<and> lit ''A'' = name m
          \<and> lit ''{}'' = (case metadata m of None \<Rightarrow> lit ''{}'' | Some x \<Rightarrow> x))
   \<and> recommend_alternatives (\<lambda>md. Inr (lit ''d'')) demo_searcher (lit ''T'') 5
       = Inr (Text [84, 234, 110, 58, 32, 66, 32,
                    77, 105, 234, 117, 32, 116, 7843, 32, 110, 103, 7855, 110, 58, 32, 100, 10,
                    84, 234, 110, 58, 32, 65, 32,
                    77, 105, 234, 117, 32, 116, 7843, 32, 110, 103, 7855, 110, 58, 32, 100, 10])"
proof -
  let ?B = "\<lparr>rec_name = lit ''B'', score = 4, rec_metadata = lit ''{}''\<rparr>"
  let ?A = "\<lparr>rec_name = lit ''A'', score = 2, rec_metadata = lit ''{}''\<rparr>"
  have f: "find_medicine_regex demo_searcher (lit ''T'') = demo_node ''t'' ''T'' # []"
    by (simp add: demo_searcher_def)
  have r: "take 5 (ranked_alternatives demo_searcher (demo_node ''t'' ''T'')) = [?B, ?A]"
    by (simp add: demo_ranked)
  have g: "filter (\<lambda>m. node_id m \<noteq> node_id (demo_node ''t'' ''T''))
        (all_alternatives demo_searcher (demo_node ''t'' ''T''))
       = [demo_node ''a'' ''A'', demo_node ''b'' ''B'', demo_node ''b'' ''B'',
          demo_node ''b'' ''B'', demo_node ''b'' ''B'', demo_node ''a'' ''A'']"
    by (simp add: demo_all demo_ids demo_lits)
  have t: "demo_node ''t'' ''T'' \<in> set (all_alternatives demo_searcher (demo_node ''t'' ''T''))"
    by (simp add: demo_all)
  note origin = target_never_recommended
                  [OF f, of "\<lambda>md. Inr []" 5, THEN conjunct2, THEN conjunct1, THEN bspec]
  have "?B \<in> set (take 5 (ranked_alternatives demo_searcher (demo_node ''t'' ''T'')))"
    by (simp only: r list.set insertI1)
  from origin [OF this]
  have b: "\<exists>m. m \<in> set (all_alternatives demo_searcher (demo_node ''t'' ''T''))
          \<and> node_id m \<noteq> node_id (demo_node ''t'' ''T'')
          \<and> lit ''B'' = name m
          \<and> lit ''{}'' = (case metadata m of None \<Rightarrow> lit ''{}'' | Some x \<Rightarrow> x)"
    by (simp add: Bex_def)
  have "?A \<in> set (take 5 (ranked_alternatives demo_searcher (demo_node ''t'' ''T'')))"
    by (simp only: r list.set insertI1 insertI2)
  from origin [OF this]
  have a: "\<exists>m. m \<in> set (all_alternatives demo_searcher (demo_node ''t'' ''T''))
          \<and> node_id m \<noteq> node_id (demo_node ''t'' ''T'')
          \<and> lit ''A'' = name m
          \<and> lit ''{}'' = (case metadata m of None \<Rightarrow> lit ''{}'' | Some x \<Rightarrow> x)"
    by (simp add: Bex_def)
  have x: "recommend_alternatives (\<lambda>md. Inr (lit ''d'')) demo_searcher (lit ''T'') 5
       = Inr (Text [84, 234, 110, 58, 32, 66, 32,
                    77, 105, 234, 117, 32, 116, 7843, 32, 110, 103, 7855, 110, 58, 32, 100, 10,
                    84, 234, 110, 58, 32, 65, 32,
                    77, 105, 234, 117, 32, 116, 7843, 32, 110, 103, 7855, 110, 58, 32, 100, 10])"
    using target_never_recommended
            [OF f, of "\<lambda>md. Inr []" 5 "\<lambda>md. lit ''d''",
             THEN conjunct2, THEN conjunct2, THEN conjunct2]
    by (simp add: r lit_def)
  from f t r g b a x show ?thesis
    by (intro conjI)
qed

end
